theory Spec2Isabelle
  imports Main "HOL-Library.Word"
begin

section \<open>The allocation interposer of \<^verbatim>\<open>src/perun/collect/memory/malloc.c\<close>\<close>

text \<open>
  The module replaces \<^verbatim>\<open>malloc\<close>, \<^verbatim>\<open>free\<close>, \<^verbatim>\<open>realloc\<close>, \<^verbatim>\<open>calloc\<close>, \<^verbatim>\<open>memalign\<close>,
  \<^verbatim>\<open>posix_memalign\<close>, \<^verbatim>\<open>valloc\<close> and \<^verbatim>\<open>aligned_alloc\<close> by wrappers that forward to the
  implementation found with \<^verbatim>\<open>dlsym(RTLD_NEXT, ...)\<close> and write one block per call to the
  file \<^verbatim>\<open>MemoryLog\<close>.

  Machine types are those of the LP64 target the file is written for: \<^verbatim>\<open>size_t\<close>,
  \<^verbatim>\<open>unsigned long\<close>, \<^verbatim>\<open>long int\<close> and every pointer are 64-bit words, \<^verbatim>\<open>unsigned int\<close> and
  \<^verbatim>\<open>int\<close> are 32-bit words. A null pointer is the word 0.
\<close>

type_synonym tid = nat
type_synonym addr = "64 word"
type_synonym size_t = "64 word"

subsection \<open>Effects on the outside world\<close>

text \<open>
  Every call that leaves the module is written to a history, in program order: the symbol
  lookup, the opening, writing and closing of streams, the call-stack collaborator
  \<^verbatim>\<open>backtrace(logFile, CALLS_TO_SKIP)\<close> and the call through a resolved function pointer.
  The four \<^verbatim>\<open>fprintf(logFile, ...)\<close> formats have one constructor each; the first argument
  is the stream written to. \<open>Log_time\<close> and \<open>Log_exit\<close> carry the value of \<^verbatim>\<open>clock()\<close> (the
  division by \<^verbatim>\<open>CLOCKS_PER_SEC\<close> in floating point is not modelled); \<open>Log_alloc\<close> carries the
  allocator name, the size as \<^verbatim>\<open>%lu\<close> prints it and the address as \<^verbatim>\<open>%li\<close> prints it.
\<close>

datatype action =
    Dlsym string
  | Fopen string string
  | Stderr string
  | Call addr "64 word list"
  | Log_time addr int
  | Log_alloc addr string nat int
  | Backtrace addr int
  | Log_newline addr
  | Log_exit addr int
  | Fclose addr

text \<open>
  An effect is an action together with the thread that performed it and the value of that
  thread's \<^verbatim>\<open>mutex\<close> counter at that moment.

  What \<^verbatim>\<open>dlsym\<close>, \<^verbatim>\<open>fopen\<close>, \<^verbatim>\<open>fprintf\<close>, \<^verbatim>\<open>backtrace\<close>, \<^verbatim>\<open>fclose\<close> and the wrapped
  implementations do inside is not part of the module. If one of them allocates, that is a
  further interceptor call by the same thread, made in the state the outer call has
  reached: with the counter above zero when the outer call holds the guard at that point.

  The module is described twice. The functions of the next subsections are the functions
  of the source, run from entry to return with nothing else entering the module in
  between; a statement about one such call holds in an arbitrary state, so also in the
  state a nested call meets. Subsection \<open>Calls made back into the module\<close> has the same
  functions with the calls that are made while one of their external calls is running,
  and the executions of a whole process are built from those.
\<close>

type_synonym effect = "tid \<times> 32 word \<times> action"
type_synonym history = "effect list"

text \<open>
  The outside world answers as a function of the history so far: \<open>dlsym\<close> is
  \<^verbatim>\<open>dlsym(RTLD_NEXT, name)\<close>, \<open>fopen\<close> is \<^verbatim>\<open>fopen(name, mode)\<close>, \<open>clock\<close> is \<^verbatim>\<open>clock()\<close>,
  \<open>call_ptr\<close> and \<open>call_int\<close> are the results of calling the function at an address with
  the given arguments (returning a pointer, respectively an \<^verbatim>\<open>int\<close>), and \<open>deref\<close> reads
  the pointer stored at an address (\<^verbatim>\<open>*memptr\<close>).
\<close>

record env =
  dlsym :: "history \<Rightarrow> string \<Rightarrow> addr"
  fopen :: "history \<Rightarrow> string \<Rightarrow> string \<Rightarrow> addr"
  clock :: "history \<Rightarrow> int"
  call_ptr :: "history \<Rightarrow> addr \<Rightarrow> 64 word list \<Rightarrow> addr"
  call_int :: "history \<Rightarrow> addr \<Rightarrow> 64 word list \<Rightarrow> 32 word"
  deref :: "history \<Rightarrow> addr \<Rightarrow> addr"

subsection \<open>The module's variables\<close>

text \<open>
  \<^verbatim>\<open>static FILE *logFile\<close>, the thread-local \<^verbatim>\<open>__thread unsigned int mutex\<close> (one counter
  per thread), and the eight function pointers \<^verbatim>\<open>real_*\<close>.
\<close>

record state =
  logFile :: addr
  mutex :: "tid \<Rightarrow> 32 word"
  real_malloc :: addr
  real_free :: addr
  real_realloc :: addr
  real_calloc :: addr
  real_memalign :: addr
  real_posix_memalign :: addr
  real_valloc :: addr
  real_aligned_alloc :: addr
  trace :: history

definition init_state :: state where
  "init_state = \<lparr> logFile = 0, mutex = (\<lambda>_. 0), real_malloc = 0, real_free = 0,
     real_realloc = 0, real_calloc = 0, real_memalign = 0, real_posix_memalign = 0,
     real_valloc = 0, real_aligned_alloc = 0, trace = [] \<rparr>"

definition LOG_FILE_NAME :: string where
  "LOG_FILE_NAME = ''MemoryLog''"

definition CALLS_TO_SKIP :: int where
  "CALLS_TO_SKIP = 1"

text \<open>\<^verbatim>\<open>EXIT_FAILURE\<close> comes from \<^verbatim>\<open>stdlib.h\<close>; glibc defines it as 1.\<close>

definition EXIT_FAILURE :: int where
  "EXIT_FAILURE = 1"

text \<open>
  A function either returns to its caller or ends the process with \<^verbatim>\<open>exit(status)\<close>.
\<close>

datatype 'a outcome = Return 'a state | Exit int state

definition emit :: "tid \<Rightarrow> action \<Rightarrow> state \<Rightarrow> state" where
  "emit t a s = s\<lparr>trace := trace s @ [(t, mutex s t, a)]\<rparr>"

subsection \<open>The guard\<close>

text \<open>
  \<^verbatim>\<open>int lock_mutex() { return __sync_fetch_and_add(&mutex, 1); }\<close> The result has type
  \<^verbatim>\<open>int\<close>: the 32 bits of the counter before the addition, to be read with \<open>sint\<close>.
  \<^verbatim>\<open>void unlock_mutex() { __sync_fetch_and_sub(&mutex, 1); }\<close> Both wrap around.
\<close>

definition lock_mutex :: "tid \<Rightarrow> state \<Rightarrow> 32 word \<times> state" where
  "lock_mutex t s = (mutex s t, s\<lparr>mutex := (mutex s)(t := mutex s t + 1)\<rparr>)"

definition unlock_mutex :: "tid \<Rightarrow> state \<Rightarrow> state" where
  "unlock_mutex t s = s\<lparr>mutex := (mutex s)(t := mutex s t - 1)\<rparr>"

subsection \<open>The log file\<close>


definition init_log_file :: "env \<Rightarrow> tid \<Rightarrow> state \<Rightarrow> unit outcome" where
  "init_log_file e t s0 =
     (let s1 = snd (lock_mutex t s0) in
      if logFile s1 = 0 then
        (let s2 = (emit t (Fopen LOG_FILE_NAME ''w'') s1)
                    \<lparr>logFile := fopen e (trace s1) LOG_FILE_NAME ''w''\<rparr>
         in if logFile s2 = 0
            then Exit EXIT_FAILURE (emit t (Stderr ''error: fopen()\<newline>'') s2)
            else Return () (unlock_mutex t s2))
      else Return () (unlock_mutex t s1))"

definition ad_log :: "env \<Rightarrow> tid \<Rightarrow> string \<Rightarrow> size_t \<Rightarrow> addr \<Rightarrow> state \<Rightarrow> state" where
  "ad_log e t allocator sz ptr s0 =
     (let s1 = snd (lock_mutex t s0);
          s2 = emit t (Log_time (logFile s1) (clock e (trace s1))) s1;
          s3 = emit t (Log_alloc (logFile s2) allocator (unat sz) (sint ptr)) s2;
          s4 = emit t (Backtrace (logFile s3) CALLS_TO_SKIP) s3;
          s5 = emit t (Log_newline (logFile s4)) s4
      in unlock_mutex t s5)"

subsection \<open>The interceptors\<close>

definition malloc :: "env \<Rightarrow> tid \<Rightarrow> size_t \<Rightarrow> state \<Rightarrow> addr outcome" where
  "malloc e t sz s0 =
     (case (if real_malloc s0 = 0 then
              (let s1 = (emit t (Dlsym ''malloc'') s0)
                          \<lparr>real_malloc := dlsym e (trace s0) ''malloc''\<rparr>
               in if real_malloc s1 = 0
                  then Exit EXIT_FAILURE (emit t (Stderr ''error: dlsym() malloc\<newline>'') s1)
                  else init_log_file e t s1)
            else Return () s0) of
        Exit c s \<Rightarrow> Exit c s
      | Return _ s2 \<Rightarrow>
          (let ptr = call_ptr e (trace s2) (real_malloc s2) [sz];
               s3 = emit t (Call (real_malloc s2) [sz]) s2
           in Return ptr
                (if mutex s3 t = 0 \<and> ptr \<noteq> 0 then ad_log e t ''malloc'' sz ptr s3 else s3)))"

definition free :: "env \<Rightarrow> tid \<Rightarrow> addr \<Rightarrow> state \<Rightarrow> unit outcome" where
  "free e t ptr s0 =
     (case (if real_free s0 = 0 then
              (let s1 = (emit t (Dlsym ''free'') s0)
                          \<lparr>real_free := dlsym e (trace s0) ''free''\<rparr>
               in if real_free s1 = 0
                  then Exit EXIT_FAILURE (emit t (Stderr ''error: dlsym() free\<newline>'') s1)
                  else init_log_file e t s1)
            else Return () s0) of
        Exit c s \<Rightarrow> Exit c s
      | Return _ s2 \<Rightarrow>
          (let s3 = emit t (Call (real_free s2) [ptr]) s2
           in Return ()
                (if mutex s3 t = 0 then ad_log e t ''free'' 0 ptr s3 else s3)))"

definition realloc :: "env \<Rightarrow> tid \<Rightarrow> addr \<Rightarrow> size_t \<Rightarrow> state \<Rightarrow> addr outcome" where
  "realloc e t ptr sz s0 =
     (case (if real_realloc s0 = 0 then
              (let s1 = (emit t (Dlsym ''realloc'') s0)
                          \<lparr>real_realloc := dlsym e (trace s0) ''realloc''\<rparr>
               in if real_realloc s1 = 0
                  then Exit EXIT_FAILURE (emit t (Stderr ''error: dlsym() realloc\<newline>'') s1)
                  else init_log_file e t s1)
            else Return () s0) of
        Exit c s \<Rightarrow> Exit c s
      | Return _ s2 \<Rightarrow>
          (let old_ptr = ptr;
               nptr = call_ptr e (trace s2) (real_realloc s2) [ptr, sz];
               s3 = emit t (Call (real_realloc s2) [ptr, sz]) s2
           in Return nptr
                (if mutex s3 t = 0 \<and> nptr \<noteq> 0
                 then ad_log e t ''free'' 0 old_ptr (ad_log e t ''realloc'' sz nptr s3)
                 else s3)))"

definition calloc :: "env \<Rightarrow> tid \<Rightarrow> size_t \<Rightarrow> size_t \<Rightarrow> state \<Rightarrow> addr outcome" where
  "calloc e t nmemb sz s0 =
     (case (if real_calloc s0 = 0 then
              (let s1 = (emit t (Dlsym ''calloc'') s0)
                          \<lparr>real_calloc := dlsym e (trace s0) ''calloc''\<rparr>
               in if real_calloc s1 = 0
                  then Exit EXIT_FAILURE (emit t (Stderr ''error: dlsym() calloc\<newline>'') s1)
                  else init_log_file e t s1)
            else Return () s0) of
        Exit c s \<Rightarrow> Exit c s
      | Return _ s2 \<Rightarrow>
          (let ptr = call_ptr e (trace s2) (real_calloc s2) [nmemb, sz];
               s3 = emit t (Call (real_calloc s2) [nmemb, sz]) s2
           in Return ptr
                (if mutex s3 t = 0 \<and> ptr \<noteq> 0
                 then ad_log e t ''calloc'' (sz * nmemb) ptr s3 else s3)))"

definition memalign :: "env \<Rightarrow> tid \<Rightarrow> size_t \<Rightarrow> size_t \<Rightarrow> state \<Rightarrow> addr outcome" where
  "memalign e t alignment sz s0 =
     (case (if real_memalign s0 = 0 then
              (let s1 = (emit t (Dlsym ''memalign'') s0)
                          \<lparr>real_memalign := dlsym e (trace s0) ''memalign''\<rparr>
               in if real_memalign s1 = 0
                  then Exit EXIT_FAILURE (emit t (Stderr ''error: dlsym() memalign\<newline>'') s1)
                  else init_log_file e t s1)
            else Return () s0) of
        Exit c s \<Rightarrow> Exit c s
      | Return _ s2 \<Rightarrow>
          (let ptr = call_ptr e (trace s2) (real_memalign s2) [alignment, sz];
               s3 = emit t (Call (real_memalign s2) [alignment, sz]) s2
           in Return ptr
                (if mutex s3 t = 0 \<and> ptr \<noteq> 0
                 then ad_log e t ''memalign'' sz ptr s3 else s3)))"

definition posix_memalign ::
  "env \<Rightarrow> tid \<Rightarrow> addr \<Rightarrow> size_t \<Rightarrow> size_t \<Rightarrow> state \<Rightarrow> 32 word outcome" where
  "posix_memalign e t memptr alignment sz s0 =
     (case (if real_posix_memalign s0 = 0 then
              (let s1 = (emit t (Dlsym ''posix_memalign'') s0)
                          \<lparr>real_posix_memalign := dlsym e (trace s0) ''posix_memalign''\<rparr>
               in if real_posix_memalign s1 = 0
                  then Exit EXIT_FAILURE
                         (emit t (Stderr ''error: dlsym() posix_memalign\<newline>'') s1)
                  else init_log_file e t s1)
            else Return () s0) of
        Exit c s \<Rightarrow> Exit c s
      | Return _ s2 \<Rightarrow>
          (let ret = call_int e (trace s2) (real_posix_memalign s2) [memptr, alignment, sz];
               s3 = emit t (Call (real_posix_memalign s2) [memptr, alignment, sz]) s2
           in Return ret
                (if mutex s3 t = 0 \<and> ret = 0
                 then ad_log e t ''posix_memalign'' sz (deref e (trace s3) memptr) s3
                 else s3)))"

definition valloc :: "env \<Rightarrow> tid \<Rightarrow> size_t \<Rightarrow> state \<Rightarrow> addr outcome" where
  "valloc e t sz s0 =
     (case (if real_valloc s0 = 0 then
              (let s1 = (emit t (Dlsym ''valloc'') s0)
                          \<lparr>real_valloc := dlsym e (trace s0) ''valloc''\<rparr>
               in if real_valloc s1 = 0
                  then Exit EXIT_FAILURE (emit t (Stderr ''error: dlsym() valloc\<newline>'') s1)
                  else init_log_file e t s1)
            else Return () s0) of
        Exit c s \<Rightarrow> Exit c s
      | Return _ s2 \<Rightarrow>
          (let ptr = call_ptr e (trace s2) (real_valloc s2) [sz];
               s3 = emit t (Call (real_valloc s2) [sz]) s2
           in Return ptr
                (if mutex s3 t = 0 \<and> ptr \<noteq> 0 then ad_log e t ''valloc'' sz ptr s3 else s3)))"

definition aligned_alloc :: "env \<Rightarrow> tid \<Rightarrow> size_t \<Rightarrow> size_t \<Rightarrow> state \<Rightarrow> addr outcome" where
  "aligned_alloc e t alignment sz s0 =
     (case (if real_aligned_alloc s0 = 0 then
              (let s1 = (emit t (Dlsym ''aligned_alloc'') s0)
                          \<lparr>real_aligned_alloc := dlsym e (trace s0) ''aligned_alloc''\<rparr>
               in if real_aligned_alloc s1 = 0
                  then Exit EXIT_FAILURE
                         (emit t (Stderr ''error: dlsym() aligned_alloc\<newline>'') s1)
                  else init_log_file e t s1)
            else Return () s0) of
        Exit c s \<Rightarrow> Exit c s
      | Return _ s2 \<Rightarrow>
          (let ptr = call_ptr e (trace s2) (real_aligned_alloc s2) [alignment, sz];
               s3 = emit t (Call (real_aligned_alloc s2) [alignment, sz]) s2
           in Return ptr
                (if mutex s3 t = 0 \<and> ptr \<noteq> 0
                 then ad_log e t ''aligned_alloc'' sz ptr s3 else s3)))"

subsection \<open>Calls and what they add to the history\<close>

text \<open>
  One constructor per interceptor, with the caller's arguments, so that a statement can
  range over all eight; \<open>intercept\<close> dispatches to the interceptor.
\<close>

datatype call =
    Malloc size_t
  | Free addr
  | Realloc addr size_t
  | Calloc size_t size_t
  | Memalign size_t size_t
  | Posix_memalign addr size_t size_t
  | Valloc size_t
  | Aligned_alloc size_t size_t

datatype result = Pointer addr | Status "32 word" | Void

fun intercept :: "env \<Rightarrow> tid \<Rightarrow> call \<Rightarrow> state \<Rightarrow> result outcome" where
  "intercept e t (Malloc sz) s = map_outcome Pointer (malloc e t sz s)"
| "intercept e t (Free ptr) s = map_outcome (\<lambda>_. Void) (free e t ptr s)"
| "intercept e t (Realloc ptr sz) s = map_outcome Pointer (realloc e t ptr sz s)"
| "intercept e t (Calloc nmemb sz) s = map_outcome Pointer (calloc e t nmemb sz s)"
| "intercept e t (Memalign al sz) s = map_outcome Pointer (memalign e t al sz s)"
| "intercept e t (Posix_memalign memptr al sz) s =
     map_outcome Status (posix_memalign e t memptr al sz s)"
| "intercept e t (Valloc sz) s = map_outcome Pointer (valloc e t sz s)"
| "intercept e t (Aligned_alloc al sz) s = map_outcome Pointer (aligned_alloc e t al sz s)"

text \<open>The name each interceptor looks up, and the variable it keeps the address in.\<close>

fun symbol :: "call \<Rightarrow> string" where
  "symbol (Malloc _) = ''malloc''"
| "symbol (Free _) = ''free''"
| "symbol (Realloc _ _) = ''realloc''"
| "symbol (Calloc _ _) = ''calloc''"
| "symbol (Memalign _ _) = ''memalign''"
| "symbol (Posix_memalign _ _ _) = ''posix_memalign''"
| "symbol (Valloc _) = ''valloc''"
| "symbol (Aligned_alloc _ _) = ''aligned_alloc''"

fun slot :: "call \<Rightarrow> state \<Rightarrow> addr" where
  "slot (Malloc _) = real_malloc"
| "slot (Free _) = real_free"
| "slot (Realloc _ _) = real_realloc"
| "slot (Calloc _ _) = real_calloc"
| "slot (Memalign _ _) = real_memalign"
| "slot (Posix_memalign _ _ _) = real_posix_memalign"
| "slot (Valloc _) = real_valloc"
| "slot (Aligned_alloc _ _) = real_aligned_alloc"

text \<open>The arguments an interceptor hands to the implementation it wraps.\<close>

fun args :: "call \<Rightarrow> 64 word list" where
  "args (Malloc sz) = [sz]"
| "args (Free ptr) = [ptr]"
| "args (Realloc ptr sz) = [ptr, sz]"
| "args (Calloc nmemb sz) = [nmemb, sz]"
| "args (Memalign al sz) = [al, sz]"
| "args (Posix_memalign memptr al sz) = [memptr, al, sz]"
| "args (Valloc sz) = [sz]"
| "args (Aligned_alloc al sz) = [al, sz]"

text \<open>
  The condition under which the result of the wrapped call is logged: a non-null pointer,
  status 0 for \<^verbatim>\<open>posix_memalign\<close>, and always for \<^verbatim>\<open>free\<close>.
\<close>

fun success :: "result \<Rightarrow> bool" where
  "success (Pointer p) = (p \<noteq> 0)"
| "success (Status r) = (r = 0)"
| "success Void = True"

fun state_of :: "'a outcome \<Rightarrow> state" where
  "state_of (Return _ s) = s"
| "state_of (Exit _ s) = s"

text \<open>The effects that happened between two states of one execution.\<close>

definition added :: "state \<Rightarrow> state \<Rightarrow> history" where
  "added s s' = drop (length (trace s)) (trace s')"

text \<open>The allocation records of a history: allocator name, size and address.\<close>

fun record_of :: "action \<Rightarrow> (string \<times> nat \<times> int) list" where
  "record_of (Log_alloc f a n p) = [(a, n, p)]"
| "record_of _ = []"

definition records :: "history \<Rightarrow> (string \<times> nat \<times> int) list" where
  "records h = concat (map (\<lambda>x. record_of (snd (snd x))) h)"

text \<open>How many effects of a history have an action of a given kind.\<close>

definition count_where :: "(action \<Rightarrow> bool) \<Rightarrow> history \<Rightarrow> nat" where
  "count_where P h = length (filter (\<lambda>x. P (snd (snd x))) h)"

fun is_call :: "action \<Rightarrow> bool" where
  "is_call (Call _ _) = True"
| "is_call _ = False"

fun is_dlsym :: "action \<Rightarrow> bool" where
  "is_dlsym (Dlsym _) = True"
| "is_dlsym _ = False"

fun is_fopen :: "action \<Rightarrow> bool" where
  "is_fopen (Fopen _ _) = True"
| "is_fopen _ = False"

fun is_fclose :: "action \<Rightarrow> bool" where
  "is_fclose (Fclose _) = True"
| "is_fclose _ = False"

fun is_exit_line :: "action \<Rightarrow> bool" where
  "is_exit_line (Log_exit _ _) = True"
| "is_exit_line _ = False"

text \<open>The accesses to the log file made by \<open>init_log_file\<close> and \<open>ad_log\<close>.\<close>

fun log_access :: "action \<Rightarrow> bool" where
  "log_access (Fopen _ _) = True"
| "log_access (Log_time _ _) = True"
| "log_access (Log_alloc _ _ _ _) = True"
| "log_access (Backtrace _ _) = True"
| "log_access (Log_newline _) = True"
| "log_access _ = False"

text \<open>The four writes of one \<open>ad_log\<close> block.\<close>

fun is_write :: "action \<Rightarrow> bool" where
  "is_write (Log_time _ _) = True"
| "is_write (Log_alloc _ _ _ _) = True"
| "is_write (Backtrace _ _) = True"
| "is_write (Log_newline _) = True"
| "is_write _ = False"

fun value_of :: "'a outcome \<Rightarrow> 'a option" where
  "value_of (Return v _) = Some v"
| "value_of (Exit _ _) = None"

subsection \<open>The common shape of the interceptors\<close>

text \<open>
  The eight interceptors are the same text up to the symbol, the variable, the arguments
  and what is logged. The functions below describe that text once, over \<open>call\<close>; lemma
  \<open>intercept_eq\<close> shows that the description and the interceptors above are the same
  function, and the proofs then go through the description.

  \<open>first_call\<close> is the block \<^verbatim>\<open>if(!real_X){ real_X = dlsym(...); if(real_X == NULL){...}
  init_log_file(); }\<close>; \<open>wrapped\<close> is what the implementation at address \<open>f\<close> answers to the
  caller's arguments after history \<open>h\<close>; \<open>to_log\<close> lists the arguments of the \<open>ad_log\<close>
  calls; \<open>forward\<close> is the rest of the body.
\<close>

fun set_slot :: "call \<Rightarrow> addr \<Rightarrow> state \<Rightarrow> state" where
  "set_slot (Malloc _) f s = s\<lparr>real_malloc := f\<rparr>"
| "set_slot (Free _) f s = s\<lparr>real_free := f\<rparr>"
| "set_slot (Realloc _ _) f s = s\<lparr>real_realloc := f\<rparr>"
| "set_slot (Calloc _ _) f s = s\<lparr>real_calloc := f\<rparr>"
| "set_slot (Memalign _ _) f s = s\<lparr>real_memalign := f\<rparr>"
| "set_slot (Posix_memalign _ _ _) f s = s\<lparr>real_posix_memalign := f\<rparr>"
| "set_slot (Valloc _) f s = s\<lparr>real_valloc := f\<rparr>"
| "set_slot (Aligned_alloc _ _) f s = s\<lparr>real_aligned_alloc := f\<rparr>"

definition diagnostic :: "call \<Rightarrow> string" where
  "diagnostic c = ''error: dlsym() '' @ symbol c @ ''\<newline>''"

definition first_call :: "env \<Rightarrow> tid \<Rightarrow> call \<Rightarrow> state \<Rightarrow> unit outcome" where
  "first_call e t c s0 =
     (if slot c s0 = 0 then
        (let s1 = set_slot c (dlsym e (trace s0) (symbol c)) (emit t (Dlsym (symbol c)) s0)
         in if slot c s1 = 0
            then Exit EXIT_FAILURE (emit t (Stderr (diagnostic c)) s1)
            else init_log_file e t s1)
      else Return () s0)"

fun wrapped :: "env \<Rightarrow> history \<Rightarrow> addr \<Rightarrow> call \<Rightarrow> result" where
  "wrapped e h f (Free ptr) = Void"
| "wrapped e h f (Posix_memalign memptr al sz) = Status (call_int e h f [memptr, al, sz])"
| "wrapped e h f c = Pointer (call_ptr e h f (args c))"

fun to_log :: "env \<Rightarrow> history \<Rightarrow> call \<Rightarrow> result \<Rightarrow> (string \<times> size_t \<times> addr) list" where
  "to_log e h (Malloc sz) (Pointer p) = [(''malloc'', sz, p)]"
| "to_log e h (Free ptr) v = [(''free'', 0, ptr)]"
| "to_log e h (Realloc ptr sz) (Pointer p) = [(''realloc'', sz, p), (''free'', 0, ptr)]"
| "to_log e h (Calloc nmemb sz) (Pointer p) = [(''calloc'', sz * nmemb, p)]"
| "to_log e h (Memalign al sz) (Pointer p) = [(''memalign'', sz, p)]"
| "to_log e h (Posix_memalign memptr al sz) v = [(''posix_memalign'', sz, deref e h memptr)]"
| "to_log e h (Valloc sz) (Pointer p) = [(''valloc'', sz, p)]"
| "to_log e h (Aligned_alloc al sz) (Pointer p) = [(''aligned_alloc'', sz, p)]"
| "to_log e h c v = []"

definition forward :: "env \<Rightarrow> tid \<Rightarrow> call \<Rightarrow> state \<Rightarrow> result outcome" where
  "forward e t c s2 =
     (let v = wrapped e (trace s2) (slot c s2) c;
          s3 = emit t (Call (slot c s2) (args c)) s2
      in Return v
           (if mutex s3 t = 0 \<and> success v
            then fold (\<lambda>(a, n, p). ad_log e t a n p) (to_log e (trace s3) c v) s3
            else s3))"

subsection \<open>Calls made back into the module\<close>

text \<open>
  \<^verbatim>\<open>dlsym\<close>, \<^verbatim>\<open>fopen\<close>, \<^verbatim>\<open>fprintf\<close>, \<^verbatim>\<open>backtrace\<close>, \<^verbatim>\<open>fclose\<close> and the wrapped implementations
  are code outside the module, and they may allocate and free while they run: glibc's
  \<^verbatim>\<open>fopen\<close> obtains its stream with \<^verbatim>\<open>malloc\<close>, its \<^verbatim>\<open>fclose\<close> releases it with \<^verbatim>\<open>free\<close>. Such
  a call enters an interceptor in the state the outer call has reached and returns before
  the external call does. A second thread that calls an interceptor while the first is
  inside an external call meets the module's variables in the same way; so does one that
  arrives between the test of a variable and the external call that follows the test,
  since the module does nothing in between. Only calls that return before the call they
  met goes on are described; two calls of different threads that overlap without one
  lying inside the other are not.

  \<open>point\<close> names the external calls of the module: the lookup, the diagnostic after a
  failed lookup, the opening of the log, the diagnostic after a failed opening, the call
  of the wrapped implementation, the writes of the records (numbered through one
  interceptor call: four per \<open>ad_log\<close>), the write of the exit line, and the closing.
  A hook says what happens during each of them.
\<close>

datatype point =
    During_dlsym
  | During_dlsym_error
  | During_fopen
  | During_fopen_error
  | During_call
  | During_write nat
  | During_exit_line
  | During_fclose

type_synonym hook = "point \<Rightarrow> state \<Rightarrow> unit outcome"

definition no_hook :: hook where
  "no_hook p s = Return () s"

text \<open>A step that ended the process is the end; otherwise the next step runs.\<close>

definition and_then :: "'a outcome \<Rightarrow> ('a \<Rightarrow> state \<Rightarrow> 'b outcome) \<Rightarrow> 'b outcome" where
  "and_then m f = (case m of Return v s \<Rightarrow> f v s | Exit k s \<Rightarrow> Exit k s)"

text \<open>
  An external call: the effect is recorded, then whatever is called back during it runs.
  What the external call answers is, as before, a function of the history at the moment
  it is called.
\<close>

definition ext :: "hook \<Rightarrow> point \<Rightarrow> tid \<Rightarrow> action \<Rightarrow> state \<Rightarrow> unit outcome" where
  "ext cb p t a s = cb p (emit t a s)"


definition init_log_file_re :: "env \<Rightarrow> hook \<Rightarrow> tid \<Rightarrow> state \<Rightarrow> unit outcome" where
  "init_log_file_re e cb t s0 =
     (let s1 = snd (lock_mutex t s0) in
      if logFile s1 = 0 then
        and_then (ext cb During_fopen t (Fopen LOG_FILE_NAME ''w'') s1)
          (\<lambda>_ s2.
             let s3 = s2\<lparr>logFile := fopen e (trace s1) LOG_FILE_NAME ''w''\<rparr>
             in if logFile s3 = 0
                then and_then
                       (ext cb During_fopen_error t (Stderr ''error: fopen()\<newline>'') s3)
                       (\<lambda>_ s4. Exit EXIT_FAILURE s4)
                else Return () (unlock_mutex t s3))
      else Return () (unlock_mutex t s1))"

definition ad_log_re ::
  "env \<Rightarrow> hook \<Rightarrow> nat \<Rightarrow> tid \<Rightarrow> string \<Rightarrow> size_t \<Rightarrow> addr \<Rightarrow> state \<Rightarrow> unit outcome" where
  "ad_log_re e cb j t allocator sz ptr s0 =
     (let s1 = snd (lock_mutex t s0) in
      and_then (ext cb (During_write (4 * j)) t
                  (Log_time (logFile s1) (clock e (trace s1))) s1)
        (\<lambda>_ s2. and_then (ext cb (During_write (4 * j + 1)) t
                    (Log_alloc (logFile s2) allocator (unat sz) (sint ptr)) s2)
          (\<lambda>_ s3. and_then (ext cb (During_write (4 * j + 2)) t
                      (Backtrace (logFile s3) CALLS_TO_SKIP) s3)
            (\<lambda>_ s4. and_then (ext cb (During_write (4 * j + 3)) t
                        (Log_newline (logFile s4)) s4)
              (\<lambda>_ s5. Return () (unlock_mutex t s5))))))"

fun write_all ::
  "env \<Rightarrow> hook \<Rightarrow> tid \<Rightarrow> nat \<Rightarrow> (string \<times> size_t \<times> addr) list \<Rightarrow> state \<Rightarrow> unit outcome" where
  "write_all e cb t j [] s = Return () s"
| "write_all e cb t j ((a, n, p) # xs) s =
     and_then (ad_log_re e cb j t a n p s) (\<lambda>_. write_all e cb t (Suc j) xs)"

definition first_call_re :: "env \<Rightarrow> hook \<Rightarrow> tid \<Rightarrow> call \<Rightarrow> state \<Rightarrow> unit outcome" where
  "first_call_re e cb t c s0 =
     (if slot c s0 = 0 then
        and_then (ext cb During_dlsym t (Dlsym (symbol c)) s0)
          (\<lambda>_ s1.
             let s2 = set_slot c (dlsym e (trace s0) (symbol c)) s1
             in if slot c s2 = 0
                then and_then (ext cb During_dlsym_error t (Stderr (diagnostic c)) s2)
                       (\<lambda>_ s3. Exit EXIT_FAILURE s3)
                else init_log_file_re e cb t s2)
      else Return () s0)"

definition forward_re :: "env \<Rightarrow> hook \<Rightarrow> tid \<Rightarrow> call \<Rightarrow> state \<Rightarrow> result outcome" where
  "forward_re e cb t c s2 =
     and_then (ext cb During_call t (Call (slot c s2) (args c)) s2)
       (\<lambda>_ s3.
          let v = wrapped e (trace s2) (slot c s2) c
          in if mutex s3 t = 0 \<and> success v
             then and_then (write_all e cb t 0 (to_log e (trace s3) c v) s3)
                    (\<lambda>_ s4. Return v s4)
             else Return v s3)"

definition intercept_re :: "env \<Rightarrow> hook \<Rightarrow> tid \<Rightarrow> call \<Rightarrow> state \<Rightarrow> result outcome" where
  "intercept_re e cb t c s = and_then (first_call_re e cb t c s) (\<lambda>_. forward_re e cb t c)"

text \<open>
  A \<open>tree\<close> is one interceptor call by some thread, together with the calls made back
  during its external calls: each with the point at which it is made, in the order in
  which they are made, and each a tree of its own. \<open>exec\<close> runs a tree: the interceptor
  with the hook that, at each point, runs the trees listed for that point one after the
  other. A call that ends the process ends everything around it.
\<close>

datatype tree = Node tid call "(point \<times> tree) list"

fun seq :: "(state \<Rightarrow> unit outcome) list \<Rightarrow> state \<Rightarrow> unit outcome" where
  "seq [] s = Return () s"
| "seq (f # fs) s = (case f s of Exit k s' \<Rightarrow> Exit k s' | Return _ s' \<Rightarrow> seq fs s')"

definition forget :: "'a outcome \<Rightarrow> unit outcome" where
  "forget m = map_outcome (\<lambda>_. ()) m"

primrec exec :: "tree \<Rightarrow> env \<Rightarrow> state \<Rightarrow> unit outcome" where
  "exec (Node t c kk) =
     (\<lambda>e s. forget (intercept_re e
        (\<lambda>p. seq (map (\<lambda>y. snd y e) (filter (\<lambda>y. fst y = p) (map (map_prod id exec) kk))))
        t c s))"

definition callbacks :: "env \<Rightarrow> (point \<times> tree) list \<Rightarrow> hook" where
  "callbacks e kk p = seq (map (\<lambda>y. exec (snd y) e) (filter (\<lambda>y. fst y = p) kk))"











fun is_stderr :: "action \<Rightarrow> bool" where
  "is_stderr (Stderr _) = True"
| "is_stderr _ = False"

subsection \<open>What every execution keeps\<close>

text \<open>
  \<open>steady c s m\<close> relates a state \<open>s\<close> to the outcome \<open>m\<close> of running something from it:
  nothing has written the exit line or closed a stream; the diagnostics on \<^verbatim>\<open>stderr\<close> have
  not become fewer; if the variable of \<open>c\<close> was set it still holds the same address and
  its symbol has not been looked up; if \<open>logFile\<close> was set it is the same stream and
  nothing has been opened; and if the process has ended, then with \<^verbatim>\<open>EXIT_FAILURE\<close> and
  after a further diagnostic.

  \<open>opened_once\<close>: the log file has been opened once if \<open>logFile\<close> is set and never
  otherwise, and \<open>logFile\<close> is set as soon as one of the variables is.
  \<open>looked_up_once c\<close>: the symbol of \<open>c\<close> has been looked up once if its variable is set, and
  never otherwise. \<open>resolved K\<close>: the variables of the symbols in \<open>K\<close> are set.
\<close>

definition steady :: "call \<Rightarrow> state \<Rightarrow> 'a outcome \<Rightarrow> bool" where
  "steady c s m \<longleftrightarrow>
     count_where is_fclose (trace (state_of m)) = count_where is_fclose (trace s)
     \<and> count_where is_exit_line (trace (state_of m)) = count_where is_exit_line (trace s)
     \<and> count_where is_stderr (trace s) \<le> count_where is_stderr (trace (state_of m))
     \<and> (slot c s \<noteq> 0 \<longrightarrow>
          slot c (state_of m) = slot c s
          \<and> count_where (\<lambda>a. a = Dlsym (symbol c)) (trace (state_of m))
              = count_where (\<lambda>a. a = Dlsym (symbol c)) (trace s))
     \<and> (logFile s \<noteq> 0 \<longrightarrow>
          logFile (state_of m) = logFile s
          \<and> count_where is_fopen (trace (state_of m)) = count_where is_fopen (trace s))
     \<and> (\<forall>k s'. m = Exit k s' \<longrightarrow>
          k = EXIT_FAILURE
          \<and> count_where is_stderr (trace s) < count_where is_stderr (trace s'))"



definition resolved :: "string list \<Rightarrow> state \<Rightarrow> bool" where
  "resolved K s \<longleftrightarrow> (\<forall>c. symbol c \<in> set K \<longrightarrow> slot c s \<noteq> 0)"

text \<open>
  \<open>holds_after Inv Fin m\<close>: \<open>Inv\<close> holds of the state if \<open>m\<close> returned, \<open>Fin\<close> if it ended the
  process. \<open>stable Inv Fin\<close>: \<open>Inv\<close> does not depend on the guard counters, survives every
  effect other than a lookup or an opening, and implies \<open>Fin\<close>.
\<close>

definition holds_after :: "(state \<Rightarrow> bool) \<Rightarrow> (state \<Rightarrow> bool) \<Rightarrow> 'a outcome \<Rightarrow> bool" where
  "holds_after Inv Fin m = (case m of Return v s \<Rightarrow> Inv s | Exit k s \<Rightarrow> Fin s)"


subsection \<open>What is assumed about the outside world in places\<close>

text \<open>
  \<open>refuses_overflow e f\<close>: the function at address \<open>f\<close> returns null whenever the product of
  its two arguments does not fit in \<^verbatim>\<open>size_t\<close>, as \<^verbatim>\<open>calloc\<close> has to.
  \<open>untouched_by_writes e a\<close>: writing to the log does not change what is stored at \<open>a\<close>.
\<close>

definition refuses_overflow :: "env \<Rightarrow> addr \<Rightarrow> bool" where
  "refuses_overflow e f \<longleftrightarrow>
     (\<forall>h n m. 2 ^ 64 \<le> unat n * unat m \<longrightarrow> call_ptr e h f [n, m] = 0)"

definition untouched_by_writes :: "env \<Rightarrow> addr \<Rightarrow> bool" where
  "untouched_by_writes e a \<longleftrightarrow>
     (\<forall>h x. is_write (snd (snd x)) \<longrightarrow> deref e (h @ [x]) a = deref e h a)"

subsection \<open>A sample environment\<close>

text \<open>
  Every symbol resolves to the address 4096, the log file opens as stream 8192, the clock
  shows the number of effects so far, every wrapped allocation returns the block at 65536
  (status 0 for \<^verbatim>\<open>posix_memalign\<close>, which stores that block).
\<close>

definition demo_env :: env where
  "demo_env = \<lparr> dlsym = (\<lambda>h n. 4096), fopen = (\<lambda>h n m. 8192), clock = (\<lambda>h. int (length h)),
     call_ptr = (\<lambda>h f a. 65536), call_int = (\<lambda>h f a. 0), deref = (\<lambda>h a. 65536) \<rparr>"

text \<open>The same world, except that no symbol can be found, or that no file can be opened.\<close>

definition no_symbol_env :: env where
  "no_symbol_env = demo_env\<lparr>dlsym := (\<lambda>h n. 0)\<rparr>"

definition no_file_env :: env where
  "no_file_env = demo_env\<lparr>fopen := (\<lambda>h n m. 0)\<rparr>"

text \<open>
  The same world with a \<^verbatim>\<open>calloc\<close> that checks its request: a call with two arguments
  whose product does not fit in \<^verbatim>\<open>size_t\<close> returns null.
\<close>

definition checked_env :: env where
  "checked_env = demo_env\<lparr>call_ptr :=
     (\<lambda>h f a. if length a = 2 \<and> 2 ^ 64 \<le> unat (a ! 0) * unat (a ! 1) then 0 else 65536)\<rparr>"


section \<open>The interceptors, effect by effect\<close>

lemma ad_log_eq:
  "ad_log e t a sz p s = s\<lparr>trace := trace s @
     [(t, mutex s t + 1, Log_time (logFile s) (clock e (trace s))),
      (t, mutex s t + 1, Log_alloc (logFile s) a (unat sz) (sint p)),
      (t, mutex s t + 1, Backtrace (logFile s) CALLS_TO_SKIP),
      (t, mutex s t + 1, Log_newline (logFile s))]\<rparr>"
  by (simp add: ad_log_def emit_def lock_mutex_def unlock_mutex_def Let_def)

lemma init_log_file_eq:
  "init_log_file e t s =
     (if logFile s \<noteq> 0 then Return () s
      else if fopen e (trace s) LOG_FILE_NAME ''w'' = 0
      then Exit EXIT_FAILURE (s\<lparr>logFile := 0, mutex := (mutex s)(t := mutex s t + 1),
             trace := trace s @ [(t, mutex s t + 1, Fopen LOG_FILE_NAME ''w''),
                                 (t, mutex s t + 1, Stderr ''error: fopen()\<newline>'')]\<rparr>)
      else Return () (s\<lparr>logFile := fopen e (trace s) LOG_FILE_NAME ''w'',
             trace := trace s @ [(t, mutex s t + 1, Fopen LOG_FILE_NAME ''w'')]\<rparr>))"
  by (simp add: init_log_file_def emit_def lock_mutex_def unlock_mutex_def Let_def)

lemmas interceptor_defs = malloc_def free_def realloc_def calloc_def memalign_def
  posix_memalign_def valloc_def aligned_alloc_def

lemma intercept_eq:
  "intercept e t c s =
     (case first_call e t c s of Exit k s' \<Rightarrow> Exit k s' | Return _ s2 \<Rightarrow> forward e t c s2)"
  by (cases c)
     (simp_all add: interceptor_defs first_call_def forward_def diagnostic_def Let_def
        split: outcome.split)

lemma set_slot_proj [simp]:
  "trace (set_slot c f s) = trace s"
  "mutex (set_slot c f s) = mutex s"
  "logFile (set_slot c f s) = logFile s"
  "slot c (set_slot c f s) = f"
  by (cases c; simp)+

lemma set_slot_upd [simp]:
  "set_slot c f (s\<lparr>trace := h\<rparr>) = (set_slot c f s)\<lparr>trace := h\<rparr>"
  "set_slot c f (s\<lparr>mutex := m\<rparr>) = (set_slot c f s)\<lparr>mutex := m\<rparr>"
  "set_slot c f (s\<lparr>logFile := l\<rparr>) = (set_slot c f s)\<lparr>logFile := l\<rparr>"
  by (cases c; simp)+

lemma slot_upd [simp]:
  "slot c (s\<lparr>trace := h\<rparr>) = slot c s"
  "slot c (s\<lparr>mutex := m\<rparr>) = slot c s"
  "slot c (s\<lparr>logFile := l\<rparr>) = slot c s"
  by (cases c; simp)+

lemma slot_set_slot:
  "slot c' (set_slot c f s) = (if symbol c' = symbol c then f else slot c' s)"
  by (cases c; cases c'; simp)


text \<open>The five ways through the first-call block.\<close>

lemma first_call_eq:
  "first_call e t c s =
     (if slot c s \<noteq> 0 then Return () s
      else if dlsym e (trace s) (symbol c) = 0
      then Exit EXIT_FAILURE ((set_slot c 0 s)\<lparr>trace := trace s @
             [(t, mutex s t, Dlsym (symbol c)), (t, mutex s t, Stderr (diagnostic c))]\<rparr>)
      else if logFile s \<noteq> 0
      then Return () ((set_slot c (dlsym e (trace s) (symbol c)) s)\<lparr>trace := trace s @
             [(t, mutex s t, Dlsym (symbol c))]\<rparr>)
      else if fopen e (trace s @ [(t, mutex s t, Dlsym (symbol c))]) LOG_FILE_NAME ''w'' = 0
      then Exit EXIT_FAILURE ((set_slot c (dlsym e (trace s) (symbol c)) s)\<lparr>logFile := 0,
             mutex := (mutex s)(t := mutex s t + 1),
             trace := trace s @
               [(t, mutex s t, Dlsym (symbol c)),
                (t, mutex s t + 1, Fopen LOG_FILE_NAME ''w''),
                (t, mutex s t + 1, Stderr ''error: fopen()\<newline>'')]\<rparr>)
      else Return () ((set_slot c (dlsym e (trace s) (symbol c)) s)\<lparr>
             logFile := fopen e (trace s @ [(t, mutex s t, Dlsym (symbol c))]) LOG_FILE_NAME ''w'',
             trace := trace s @
               [(t, mutex s t, Dlsym (symbol c)),
                (t, mutex s t + 1, Fopen LOG_FILE_NAME ''w'')]\<rparr>))"
  by (simp add: first_call_def init_log_file_eq emit_def Let_def)


lemma is_write_other:
  "is_write a \<Longrightarrow> \<not> is_call a \<and> \<not> is_dlsym a \<and> \<not> is_fopen a \<and> \<not> is_fclose a
     \<and> \<not> is_exit_line a \<and> log_access a"
  by (cases a) simp_all

lemma records_simps [simp]:
  "records [] = []"
  "records (x # h) = record_of (snd (snd x)) @ records h"
  "records (h @ h') = records h @ records h'"
  by (simp_all add: records_def)

lemma count_where_simps [simp]:
  "count_where P [] = 0"
  "count_where P (x # h) = (if P (snd (snd x)) then 1 else 0) + count_where P h"
  "count_where P (h @ h') = count_where P h + count_where P h'"
  by (simp_all add: count_where_def)

lemma added_simps [simp]:
  "added s (s\<lparr>trace := trace s @ X\<rparr>) = X"
  "added s s = []"
  by (simp_all add: added_def)

lemma added_trace: "trace s' = trace s @ X \<Longrightarrow> added s s' = X"
  by (simp add: added_def)

text \<open>A sequence of \<open>ad_log\<close> calls only appends write effects, made with the guard held.\<close>

lemma fold_ad_log:
  "\<exists>X. fold (\<lambda>(a, n, p). ad_log e t a n p) xs s = s\<lparr>trace := trace s @ X\<rparr>
       \<and> records X = map (\<lambda>(a, n, p). (a, unat n, sint p)) xs
       \<and> (\<forall>x\<in>set X. fst x = t \<and> fst (snd x) = mutex s t + 1 \<and> is_write (snd (snd x)))"
proof (induction xs arbitrary: s)
  case Nil
  show ?case by (intro exI [of _ "[]"]) simp
next
  case (Cons y ys)
  obtain a n p where y: "y = (a, n, p)" by (cases y)
  let ?s1 = "ad_log e t a n p s"
  let ?B = "[(t, mutex s t + 1, Log_time (logFile s) (clock e (trace s))),
      (t, mutex s t + 1, Log_alloc (logFile s) a (unat n) (sint p)),
      (t, mutex s t + 1, Backtrace (logFile s) CALLS_TO_SKIP),
      (t, mutex s t + 1, Log_newline (logFile s))]"
  have s1: "?s1 = s\<lparr>trace := trace s @ ?B\<rparr>" by (rule ad_log_eq)
  from Cons.IH [of ?s1] obtain X where
    X: "fold (\<lambda>(a, n, p). ad_log e t a n p) ys ?s1 = ?s1\<lparr>trace := trace ?s1 @ X\<rparr>"
       "records X = map (\<lambda>(a, n, p). (a, unat n, sint p)) ys"
       "\<forall>x\<in>set X. fst x = t \<and> fst (snd x) = mutex ?s1 t + 1 \<and> is_write (snd (snd x))"
    by blast
  have m: "mutex ?s1 = mutex s" by (simp add: s1)
  have "fold (\<lambda>(a, n, p). ad_log e t a n p) (y # ys) s = s\<lparr>trace := trace s @ (?B @ X)\<rparr>"
    using X(1) by (simp add: y s1)
  moreover have "records (?B @ X) = map (\<lambda>(a, n, p). (a, unat n, sint p)) (y # ys)"
    using X(2) by (simp add: y)
  moreover have "\<forall>x\<in>set (?B @ X). fst x = t \<and> fst (snd x) = mutex s t + 1 \<and> is_write (snd (snd x))"
    using X(3) by (auto simp: m)
  ultimately show ?case by blast
qed

lemma forward_ex:
  "\<exists>X. forward e t c s =
         Return (wrapped e (trace s) (slot c s) c)
           (s\<lparr>trace := trace s @ (t, mutex s t, Call (slot c s) (args c)) # X\<rparr>)
       \<and> records X =
           (if mutex s t = 0 \<and> success (wrapped e (trace s) (slot c s) c)
            then map (\<lambda>(a, n, p). (a, unat n, sint p))
                   (to_log e (trace s @ [(t, mutex s t, Call (slot c s) (args c))]) c
                      (wrapped e (trace s) (slot c s) c))
            else [])
       \<and> (\<forall>x\<in>set X. fst x = t \<and> fst (snd x) = mutex s t + 1 \<and> is_write (snd (snd x)))"
proof (cases "mutex s t = 0 \<and> success (wrapped e (trace s) (slot c s) c)")
  case False
  then have "forward e t c s =
         Return (wrapped e (trace s) (slot c s) c)
           (s\<lparr>trace := trace s @ (t, mutex s t, Call (slot c s) (args c)) # []\<rparr>)"
    by (auto simp: forward_def emit_def Let_def)
  with False show ?thesis by (intro exI [of _ "[]"]) auto
next
  case True
  let ?s3 = "emit t (Call (slot c s) (args c)) s"
  let ?v = "wrapped e (trace s) (slot c s) c"
  from fold_ad_log [of e t "to_log e (trace ?s3) c ?v" ?s3] obtain X where
    X: "fold (\<lambda>(a, n, p). ad_log e t a n p) (to_log e (trace ?s3) c ?v) ?s3 = ?s3\<lparr>trace := trace ?s3 @ X\<rparr>"
       "records X = map (\<lambda>(a, n, p). (a, unat n, sint p)) (to_log e (trace ?s3) c ?v)"
       "\<forall>x\<in>set X. fst x = t \<and> fst (snd x) = mutex ?s3 t + 1 \<and> is_write (snd (snd x))"
    by blast
  have "forward e t c s = Return ?v (s\<lparr>trace := trace s @ (t, mutex s t, Call (slot c s) (args c)) # X\<rparr>)"
    using True X(1) by (simp add: forward_def Let_def emit_def)
  moreover have "records X = map (\<lambda>(a, n, p). (a, unat n, sint p))
                   (to_log e (trace s @ [(t, mutex s t, Call (slot c s) (args c))]) c ?v)"
    using X(2) by (simp add: emit_def)
  moreover have "\<forall>x\<in>set X. fst x = t \<and> fst (snd x) = mutex s t + 1 \<and> is_write (snd (snd x))"
    using X(3) by (simp add: emit_def)
  ultimately show ?thesis using True by (intro exI [of _ X]) simp
qed

lemma length_to_log:
  "success (wrapped e h f c) \<Longrightarrow>
   length (to_log e h' c (wrapped e h f c)) = (case c of Realloc _ _ \<Rightarrow> 2 | _ \<Rightarrow> 1)"
  by (cases c) simp_all



text \<open>What a call that ends the process has done.\<close>

lemma intercept_Exit:
  assumes "intercept e t c s = Exit k s'"
  shows "k = EXIT_FAILURE \<and> slot c s = 0 \<and> logFile s' = logFile s
     \<and> trace s' = trace s @ (t, mutex s t, Dlsym (symbol c)) #
         (if dlsym e (trace s) (symbol c) = 0
          then [(t, mutex s t, Stderr (diagnostic c))]
          else [(t, mutex s t + 1, Fopen LOG_FILE_NAME ''w''),
                (t, mutex s t + 1, Stderr ''error: fopen()\<newline>'')])
     \<and> (dlsym e (trace s) (symbol c) \<noteq> 0 \<longrightarrow>
          logFile s = 0
          \<and> fopen e (trace s @ [(t, mutex s t, Dlsym (symbol c))]) LOG_FILE_NAME ''w'' = 0)
     \<and> (\<forall>c'. symbol c' \<noteq> symbol c \<longrightarrow> slot c' s' = slot c' s)"
proof (cases "first_call e t c s")
  case (Return u s2)
  obtain X where "forward e t c s2 =
         Return (wrapped e (trace s2) (slot c s2) c)
           (s2\<lparr>trace := trace s2 @ (t, mutex s2 t, Call (slot c s2) (args c)) # X\<rparr>)"
    using forward_ex [of e t c s2] by blast
  with Return assms show ?thesis by (simp add: intercept_eq)
next
  case (Exit k' s'')
  with assms have "first_call e t c s = Exit k s'" by (simp add: intercept_eq)
  then show ?thesis
    by (auto simp: first_call_eq slot_set_slot split: if_splits)
qed

text \<open>What a call that returns has done.\<close>

lemma intercept_Return:
  assumes "intercept e t c s = Return v s'"
  shows "\<exists>Y X. trace s' = trace s @ Y @ (t, mutex s t, Call (slot c s') (args c)) # X
     \<and> Y = (if slot c s \<noteq> 0 then []
            else (t, mutex s t, Dlsym (symbol c)) #
                 (if logFile s \<noteq> 0 then [] else [(t, mutex s t + 1, Fopen LOG_FILE_NAME ''w'')]))
     \<and> v = wrapped e (trace s @ Y) (slot c s') c
     \<and> records X =
         (if mutex s t = 0 \<and> success v
          then map (\<lambda>(a, n, p). (a, unat n, sint p))
                 (to_log e (trace s @ Y @ [(t, mutex s t, Call (slot c s') (args c))]) c v)
          else [])
     \<and> (\<forall>x\<in>set X. fst x = t \<and> fst (snd x) = mutex s t + 1 \<and> is_write (snd (snd x)))
     \<and> mutex s' = mutex s
     \<and> slot c s' = (if slot c s \<noteq> 0 then slot c s else dlsym e (trace s) (symbol c))
     \<and> slot c s' \<noteq> 0
     \<and> (\<forall>c'. symbol c' \<noteq> symbol c \<longrightarrow> slot c' s' = slot c' s)
     \<and> logFile s' =
         (if slot c s \<noteq> 0 \<or> logFile s \<noteq> 0 then logFile s
          else fopen e (trace s @ [(t, mutex s t, Dlsym (symbol c))]) LOG_FILE_NAME ''w'')
     \<and> (slot c s = 0 \<longrightarrow> logFile s' \<noteq> 0)"
proof (cases "first_call e t c s")
  case (Exit k s'')
  with assms show ?thesis by (simp add: intercept_eq)
next
  case (Return u s2)
  let ?Y = "if slot c s \<noteq> 0 then []
            else (t, mutex s t, Dlsym (symbol c)) #
                 (if logFile s \<noteq> 0 then [] else [(t, mutex s t + 1, Fopen LOG_FILE_NAME ''w'')])"
  from Return have s2:
    "trace s2 = trace s @ ?Y" "mutex s2 = mutex s"
    "slot c s2 = (if slot c s \<noteq> 0 then slot c s else dlsym e (trace s) (symbol c))"
    "slot c s2 \<noteq> 0"
    "\<forall>c'. symbol c' \<noteq> symbol c \<longrightarrow> slot c' s2 = slot c' s"
    "logFile s2 =
         (if slot c s \<noteq> 0 \<or> logFile s \<noteq> 0 then logFile s
          else fopen e (trace s @ [(t, mutex s t, Dlsym (symbol c))]) LOG_FILE_NAME ''w'')"
    "slot c s = 0 \<longrightarrow> logFile s2 \<noteq> 0"
    by (auto simp: first_call_eq slot_set_slot split: if_splits)
  from forward_ex [of e t c s2] obtain X where
    X: "forward e t c s2 =
         Return (wrapped e (trace s2) (slot c s2) c)
           (s2\<lparr>trace := trace s2 @ (t, mutex s2 t, Call (slot c s2) (args c)) # X\<rparr>)"
       "records X =
           (if mutex s2 t = 0 \<and> success (wrapped e (trace s2) (slot c s2) c)
            then map (\<lambda>(a, n, p). (a, unat n, sint p))
                   (to_log e (trace s2 @ [(t, mutex s2 t, Call (slot c s2) (args c))]) c
                      (wrapped e (trace s2) (slot c s2) c))
            else [])"
       "\<forall>x\<in>set X. fst x = t \<and> fst (snd x) = mutex s2 t + 1 \<and> is_write (snd (snd x))"
    by blast
  from assms Return X(1) have
    v: "v = wrapped e (trace s2) (slot c s2) c" and
    s': "s' = s2\<lparr>trace := trace s2 @ (t, mutex s2 t, Call (slot c s2) (args c)) # X\<rparr>"
    by (simp_all add: intercept_eq)
  have sl: "\<And>c'. slot c' s' = slot c' s2" by (simp add: s')
  have "trace s' = trace s @ ?Y @ (t, mutex s t, Call (slot c s') (args c)) # X"
    by (simp add: s' s2(1,2))
  moreover have "v = wrapped e (trace s @ ?Y) (slot c s') c"
    by (simp only: v sl s2(1))
  moreover have "records X =
         (if mutex s t = 0 \<and> success v
          then map (\<lambda>(a, n, p). (a, unat n, sint p))
                 (to_log e (trace s @ ?Y @ [(t, mutex s t, Call (slot c s') (args c))]) c v)
          else [])"
    using X(2) by (simp only: v sl s2(1,2) append_assoc)
  moreover have "\<forall>x\<in>set X. fst x = t \<and> fst (snd x) = mutex s t + 1 \<and> is_write (snd (snd x))"
    using X(3) by (simp only: s2(2))
  moreover have "mutex s' = mutex s" by (simp add: s' s2(2))
  moreover have "slot c s' = (if slot c s \<noteq> 0 then slot c s else dlsym e (trace s) (symbol c))"
    by (simp only: sl s2(3))
  moreover have "slot c s' \<noteq> 0" by (simp only: sl s2(4)) simp
  moreover have "\<forall>c'. symbol c' \<noteq> symbol c \<longrightarrow> slot c' s' = slot c' s"
    using s2(5) by (simp only: sl)
  moreover have "logFile s' =
         (if slot c s \<noteq> 0 \<or> logFile s \<noteq> 0 then logFile s
          else fopen e (trace s @ [(t, mutex s t, Dlsym (symbol c))]) LOG_FILE_NAME ''w'')"
    using s2(6) by (simp add: s')
  moreover have "slot c s = 0 \<longrightarrow> logFile s' \<noteq> 0"
    using s2(7) by (simp add: s')
  ultimately show ?thesis by blast
qed

lemma count_where_none: "\<forall>x\<in>set X. \<not> P (snd (snd x)) \<Longrightarrow> count_where P X = 0"
  by (induction X) auto




lemma slot_init_state [simp]: "slot c init_state = 0"
  by (cases c) (simp_all add: init_state_def)

lemma init_state_proj [simp]:
  "trace init_state = []" "logFile init_state = 0" "mutex init_state t = 0"
  by (simp_all add: init_state_def)

lemma deref_after_writes:
  assumes "untouched_by_writes e a" and "\<forall>x\<in>set X. is_write (snd (snd x))"
  shows "deref e (h @ X) a = deref e h a"
  using assms(2)
proof (induction X rule: rev_induct)
  case Nil
  show ?case by simp
next
  case (snoc x X)
  then have w: "is_write (snd (snd x))" and IH: "deref e (h @ X) a = deref e h a" by simp_all
  have "deref e ((h @ X) @ [x]) a = deref e (h @ X) a"
    using assms(1) w unfolding untouched_by_writes_def by blast
  with IH show ?case by simp
qed

lemma refuses_overflow_checked_env: "refuses_overflow checked_env f"
  by (simp add: refuses_overflow_def checked_env_def)

text \<open>The definitions a concrete execution unfolds.\<close>

lemmas run_defs = init_log_file_def ad_log_def emit_def lock_mutex_def unlock_mutex_def
  init_state_def demo_env_def no_symbol_env_def no_file_env_def checked_env_def Let_def
  EXIT_FAILURE_def
  LOG_FILE_NAME_def CALLS_TO_SKIP_def added_def

section \<open>Executions with calls made back\<close>

text \<open>With nothing called back, the functions with a hook are the functions of the module.\<close>

lemma and_then_simps [simp]:
  "and_then (Return v s) f = f v s"
  "and_then (Exit k s) f = Exit k s"
  by (simp_all add: and_then_def)

lemma ext_no_hook [simp]: "ext no_hook p t a s = Return () (emit t a s)"
  by (simp add: ext_def no_hook_def)

lemma ad_log_re_plain: "ad_log_re e no_hook j t a n p s = Return () (ad_log e t a n p s)"
  by (simp add: ad_log_re_def ad_log_def Let_def)

lemma init_log_file_re_plain: "init_log_file_re e no_hook t s = init_log_file e t s"
  by (simp add: init_log_file_re_def init_log_file_def Let_def emit_def)


lemma write_all_plain:
  "write_all e no_hook t j xs s = Return () (fold (\<lambda>(a, n, p). ad_log e t a n p) xs s)"
  by (induction xs arbitrary: s j) (auto simp: ad_log_re_plain)

lemma first_call_re_plain: "first_call_re e no_hook t c s = first_call e t c s"
  by (simp add: first_call_re_def first_call_def init_log_file_re_plain Let_def)

lemma forward_re_plain: "forward_re e no_hook t c s = forward e t c s"
  by (simp add: forward_re_def forward_def write_all_plain Let_def emit_def)

lemma intercept_re_plain: "intercept_re e no_hook t c s = intercept e t c s"
  by (simp add: intercept_re_def intercept_eq first_call_re_plain forward_re_plain and_then_def
      fun_eq_iff split: outcome.splits)

lemma callbacks_eq:
  "callbacks e kk = (\<lambda>p. seq (map (\<lambda>y. exec (snd y) e) (filter (\<lambda>y. fst y = p) kk)))"
  by (simp add: fun_eq_iff callbacks_def)

lemma exec_Node: "exec (Node t c kk) e s = forget (intercept_re e (callbacks e kk) t c s)"
proof -
  have "\<And>p. map (\<lambda>y. snd y e) (filter (\<lambda>y. fst y = p) (map (map_prod id exec) kk))
      = map (\<lambda>y. exec (snd y) e) (filter (\<lambda>y. fst y = p) kk)"
    by (induction kk) auto
  then show ?thesis by (simp add: callbacks_eq)
qed

lemma callbacks_Nil [simp]: "callbacks e [] = no_hook"
  by (simp add: callbacks_def no_hook_def fun_eq_iff)

lemma exec_plain: "exec (Node t c []) e s = forget (intercept e t c s)"
  by (simp only: exec_Node callbacks_Nil intercept_re_plain)

subsection \<open>What every execution keeps\<close>













lemma steady_cast: "steady c s (Exit k s' :: 'a outcome) \<Longrightarrow> steady c s (Exit k s' :: 'b outcome)"
  by (simp add: steady_def)








subsection \<open>Properties kept along an execution\<close>

lemma holds_after_simps [simp]:
  "holds_after Inv Fin (Return v s) = Inv s"
  "holds_after Inv Fin (Exit k s) = Fin s"
  by (simp_all add: holds_after_def)














subsection \<open>Each symbol is looked up once\<close>








subsection \<open>The log file is opened once\<close>

text \<open>
  An execution in which every interceptor entered has its variable set opens nothing and
  leaves \<open>logFile\<close> as it is.
\<close>

lemma resolved_upd [simp]:
  "resolved K (s\<lparr>trace := h\<rparr>) = resolved K s"
  "resolved K (s\<lparr>mutex := m\<rparr>) = resolved K s"
  "resolved K (s\<lparr>logFile := l\<rparr>) = resolved K s"
  by (simp_all add: resolved_def)






















section \<open>The guard counter\<close>

text \<open>
  C7. For every state and thread, \<open>lock_mutex\<close> adds one to that thread's counter and
  returns the counter as it was before, \<open>unlock_mutex\<close> subtracts one, no other thread's
  counter and no other variable changes, and \<open>unlock_mutex\<close> after \<open>lock_mutex\<close> gives the
  state back. The arithmetic is that of \<^verbatim>\<open>unsigned int\<close>.
\<close>

theorem lock_unlock_mutex:
  "fst (lock_mutex t s) = mutex s t
   \<and> mutex (snd (lock_mutex t s)) t = mutex s t + 1
   \<and> mutex (unlock_mutex t s) t = mutex s t - 1
   \<and> (\<forall>u. u \<noteq> t \<longrightarrow> mutex (snd (lock_mutex t s)) u = mutex s u
                    \<and> mutex (unlock_mutex t s) u = mutex s u)
   \<and> unlock_mutex t (snd (lock_mutex t s)) = s"
  by (simp add: lock_mutex_def unlock_mutex_def)

theorem lock_unlock_mutex_witness:
  "fst (lock_mutex 0 init_state) = 0
   \<and> mutex (snd (lock_mutex 0 init_state)) 0 = 1
   \<and> mutex (unlock_mutex 0 (snd (lock_mutex 0 init_state))) 0 = 0
   \<and> mutex (snd (lock_mutex 0 init_state)) 1 = 0
   \<and> unlock_mutex 0 (snd (lock_mutex 0 init_state)) = init_state"
  using lock_unlock_mutex [of 0 init_state] lock_unlock_mutex [of 0 "snd (lock_mutex 0 init_state)"]
  by (simp add: init_state_def)

section \<open>Records written per call\<close>

text \<open>
  C1. For every call of an interceptor, in every state: a call that ends the process writes
  no allocation record; a call that returns writes records exactly when the calling
  thread's counter was zero on entry and the wrapped call succeeded (non-null pointer,
  status 0 for \<^verbatim>\<open>posix_memalign\<close>, always for \<^verbatim>\<open>free\<close>), and writes none otherwise, in
  particular none when the counter was above zero. The number of records is one for
  every interceptor except \<^verbatim>\<open>realloc\<close>, which writes two.
\<close>

theorem events_per_call:
  "length (records (added s (state_of (intercept e t c s)))) =
     (case value_of (intercept e t c s) of
        None \<Rightarrow> 0
      | Some v \<Rightarrow>
          if mutex s t = 0 \<and> success v then (case c of Realloc _ _ \<Rightarrow> 2 | _ \<Rightarrow> 1) else 0)"
proof (cases "intercept e t c s")
  case (Exit k s')
  from intercept_Exit [OF Exit] have "records (added s s') = []"
    by (auto simp: added_def)
  with Exit show ?thesis by simp
next
  case (Return v s')
  from intercept_Return [OF Return] obtain Y X where
    tr: "trace s' = trace s @ Y @ (t, mutex s t, Call (slot c s') (args c)) # X" and
    Y: "Y = (if slot c s \<noteq> 0 then []
            else (t, mutex s t, Dlsym (symbol c)) #
                 (if logFile s \<noteq> 0 then [] else [(t, mutex s t + 1, Fopen LOG_FILE_NAME ''w'')]))" and
    v: "v = wrapped e (trace s @ Y) (slot c s') c" and
    X: "records X =
         (if mutex s t = 0 \<and> success v
          then map (\<lambda>(a, n, p). (a, unat n, sint p))
                 (to_log e (trace s @ Y @ [(t, mutex s t, Call (slot c s') (args c))]) c v)
          else [])"
    by blast
  have "records Y = []" by (simp add: Y)
  then have "records (added s s') = records X"
    by (simp add: added_trace [OF tr])
  moreover have "\<And>h'. success v \<Longrightarrow>
    length (to_log e h' c v) = (case c of Realloc _ _ \<Rightarrow> 2 | _ \<Rightarrow> 1)"
    unfolding v by (rule length_to_log)
  ultimately have "length (records (added s s')) =
     (if mutex s t = 0 \<and> success v then (case c of Realloc _ _ \<Rightarrow> 2 | _ \<Rightarrow> 1) else 0)"
    using X by (cases "mutex s t = 0 \<and> success v") auto
  with Return show ?thesis by simp
qed

theorem events_per_call_witness:
  "length (records (added init_state (state_of (intercept demo_env 0 (Malloc 3) init_state)))) = 1
   \<and> length (records (added init_state (state_of (intercept no_symbol_env 0 (Malloc 3) init_state)))) = 0"
  using events_per_call [of init_state demo_env 0 "Malloc 3"]
    events_per_call [of init_state no_symbol_env 0 "Malloc 3"]
  by (simp add: malloc_def init_log_file_def ad_log_def emit_def lock_mutex_def unlock_mutex_def
      init_state_def demo_env_def no_symbol_env_def Let_def EXIT_FAILURE_def)

text \<open>
  C1 as stated asks for exactly one record from every interceptor. An outermost
  \<^verbatim>\<open>realloc(5, 7)\<close> that succeeds writes two.
\<close>

theorem realloc_two_events_counterexample:
  "mutex init_state 0 = 0
   \<and> value_of (intercept demo_env 0 (Realloc 5 7) init_state) = Some (Pointer 65536)
   \<and> success (Pointer 65536)
   \<and> records (added init_state (state_of (intercept demo_env 0 (Realloc 5 7) init_state)))
       = [(''realloc'', 7, 65536), (''free'', 0, 5)]"
  by (simp add: realloc_def init_log_file_def ad_log_def emit_def lock_mutex_def unlock_mutex_def
      init_state_def demo_env_def Let_def added_def)

section \<open>The two records of realloc\<close>

text \<open>
  C2. For every outermost call \<^verbatim>\<open>realloc(ptr, size)\<close> with a non-null \<open>ptr\<close> whose wrapped
  call returns a non-null address, exactly two records are written: first the
  \<^verbatim>\<open>realloc\<close> record with the new address and the requested size, then the \<^verbatim>\<open>free\<close> record
  with size 0 and the old pointer. The two blocks are the last eight effects of the call,
  one right after the other.
\<close>

theorem realloc_two_records:
  assumes "mutex s t = 0" and "ptr \<noteq> 0" and "realloc e t ptr sz s = Return nptr s'"
    and "nptr \<noteq> 0"
  shows "records (added s s') = [(''realloc'', unat sz, sint nptr), (''free'', 0, sint ptr)]
     \<and> (\<exists>h c1 c2. trace s' = h @
           [(t, 1, Log_time (logFile s') c1),
            (t, 1, Log_alloc (logFile s') ''realloc'' (unat sz) (sint nptr)),
            (t, 1, Backtrace (logFile s') CALLS_TO_SKIP),
            (t, 1, Log_newline (logFile s')),
            (t, 1, Log_time (logFile s') c2),
            (t, 1, Log_alloc (logFile s') ''free'' 0 (sint ptr)),
            (t, 1, Backtrace (logFile s') CALLS_TO_SKIP),
            (t, 1, Log_newline (logFile s'))])"
proof -
  let ?c = "Realloc ptr sz"
  have "intercept e t ?c s = Return (Pointer nptr) s'"
    using assms(3) by simp
  then obtain u s2 where fc: "first_call e t ?c s = Return u s2"
    and fw: "forward e t ?c s2 = Return (Pointer nptr) s'"
    by (auto simp: intercept_eq split: outcome.splits)
  from fc have s2: "mutex s2 = mutex s" "\<exists>Y. trace s2 = trace s @ Y \<and> records Y = []"
    by (auto simp: first_call_eq split: if_splits)
  then obtain Y where Y: "trace s2 = trace s @ Y" "records Y = []" by blast
  let ?s3 = "emit t (Call (slot ?c s2) (args ?c)) s2"
  have m3: "mutex ?s3 t = 0" by (simp add: emit_def s2(1) assms(1))
  from fw have w: "wrapped e (trace s2) (slot ?c s2) ?c = Pointer nptr"
    by (simp add: forward_def Let_def)
  from fw have "s' = ad_log e t ''free'' 0 ptr (ad_log e t ''realloc'' sz nptr ?s3)"
    unfolding forward_def Let_def w using m3 assms(4) by simp
  then have s': "s' = ?s3\<lparr>trace := trace ?s3 @
           [(t, 1, Log_time (logFile ?s3) (clock e (trace ?s3))),
            (t, 1, Log_alloc (logFile ?s3) ''realloc'' (unat sz) (sint nptr)),
            (t, 1, Backtrace (logFile ?s3) CALLS_TO_SKIP),
            (t, 1, Log_newline (logFile ?s3)),
            (t, 1, Log_time (logFile ?s3) (clock e (trace ?s3 @
               [(t, 1, Log_time (logFile ?s3) (clock e (trace ?s3))),
                (t, 1, Log_alloc (logFile ?s3) ''realloc'' (unat sz) (sint nptr)),
                (t, 1, Backtrace (logFile ?s3) CALLS_TO_SKIP),
                (t, 1, Log_newline (logFile ?s3))]))),
            (t, 1, Log_alloc (logFile ?s3) ''free'' 0 (sint ptr)),
            (t, 1, Backtrace (logFile ?s3) CALLS_TO_SKIP),
            (t, 1, Log_newline (logFile ?s3))]\<rparr>"
    using m3 by (simp add: ad_log_eq)
  have lf: "logFile s' = logFile ?s3" by (subst s') simp
  have tr: "trace s' = trace ?s3 @
           [(t, 1, Log_time (logFile ?s3) (clock e (trace ?s3))),
            (t, 1, Log_alloc (logFile ?s3) ''realloc'' (unat sz) (sint nptr)),
            (t, 1, Backtrace (logFile ?s3) CALLS_TO_SKIP),
            (t, 1, Log_newline (logFile ?s3)),
            (t, 1, Log_time (logFile ?s3) (clock e (trace ?s3 @
               [(t, 1, Log_time (logFile ?s3) (clock e (trace ?s3))),
                (t, 1, Log_alloc (logFile ?s3) ''realloc'' (unat sz) (sint nptr)),
                (t, 1, Backtrace (logFile ?s3) CALLS_TO_SKIP),
                (t, 1, Log_newline (logFile ?s3))]))),
            (t, 1, Log_alloc (logFile ?s3) ''free'' 0 (sint ptr)),
            (t, 1, Backtrace (logFile ?s3) CALLS_TO_SKIP),
            (t, 1, Log_newline (logFile ?s3))]"
    by (subst s') simp
  have "records (added s s') = [(''realloc'', unat sz, sint nptr), (''free'', 0, sint ptr)]"
    by (subst s') (simp add: added_def emit_def Y)
  moreover have "\<exists>h c1 c2. trace s' = h @
           [(t, 1, Log_time (logFile s') c1),
            (t, 1, Log_alloc (logFile s') ''realloc'' (unat sz) (sint nptr)),
            (t, 1, Backtrace (logFile s') CALLS_TO_SKIP),
            (t, 1, Log_newline (logFile s')),
            (t, 1, Log_time (logFile s') c2),
            (t, 1, Log_alloc (logFile s') ''free'' 0 (sint ptr)),
            (t, 1, Backtrace (logFile s') CALLS_TO_SKIP),
            (t, 1, Log_newline (logFile s'))]"
    unfolding lf tr by (intro exI) (rule refl)
  ultimately show ?thesis by blast
qed

theorem realloc_two_records_witness:
  "mutex init_state 0 = 0
   \<and> value_of (realloc demo_env 0 5 7 init_state) = Some 65536
   \<and> records (added init_state (state_of (realloc demo_env 0 5 7 init_state)))
       = [(''realloc'', 7, 65536), (''free'', 0, 5)]"
proof -
  let ?s' = "state_of (realloc demo_env 0 5 7 init_state)"
  have m: "mutex init_state 0 = 0" by simp
  have p: "(5 :: addr) \<noteq> 0" by simp
  have r: "realloc demo_env 0 5 7 init_state = Return 65536 ?s'"
    by (simp add: realloc_def run_defs)
  have nz: "(65536 :: addr) \<noteq> 0" by simp
  from realloc_two_records [OF m p r nz]
  have "records (added init_state ?s') = [(''realloc'', 7, 65536), (''free'', 0, 5)]" by simp
  moreover have "value_of (realloc demo_env 0 5 7 init_state) = Some 65536"
    by (subst r) simp
  ultimately show ?thesis by simp
qed

section \<open>A symbol that cannot be resolved\<close>

text \<open>
  C5. For every interceptor whose variable is still null: if \<^verbatim>\<open>dlsym\<close> returns null, the
  call ends the process with status \<^verbatim>\<open>EXIT_FAILURE\<close>, which is not zero, after the lookup and
  the diagnostic on \<^verbatim>\<open>stderr\<close> and nothing else, so without any call through the pointer.
  And in every state, no call of an interceptor calls through a null pointer.
\<close>

theorem unresolved_symbol_is_fatal:
  "(slot c s = 0 \<and> dlsym e (trace s) (symbol c) = 0 \<longrightarrow>
      (\<exists>s'. intercept e t c s = Exit EXIT_FAILURE s' \<and> EXIT_FAILURE \<noteq> 0
         \<and> added s s' = [(t, mutex s t, Dlsym (symbol c)),
                          (t, mutex s t, Stderr (''error: dlsym() '' @ symbol c @ ''\<newline>''))]))
   \<and> (\<forall>x\<in>set (added s (state_of (intercept e t c s))).
         \<forall>f a. snd (snd x) = Call f a \<longrightarrow> f \<noteq> 0)"
proof (intro conjI impI)
  assume a: "slot c s = 0 \<and> dlsym e (trace s) (symbol c) = 0"
  then have "first_call e t c s = Exit EXIT_FAILURE ((set_slot c 0 s)\<lparr>trace := trace s @
             [(t, mutex s t, Dlsym (symbol c)), (t, mutex s t, Stderr (diagnostic c))]\<rparr>)"
    by (simp add: first_call_eq)
  then have "intercept e t c s = Exit EXIT_FAILURE ((set_slot c 0 s)\<lparr>trace := trace s @
             [(t, mutex s t, Dlsym (symbol c)), (t, mutex s t, Stderr (diagnostic c))]\<rparr>)"
    by (simp add: intercept_eq)
  then show "\<exists>s'. intercept e t c s = Exit EXIT_FAILURE s' \<and> EXIT_FAILURE \<noteq> 0
         \<and> added s s' = [(t, mutex s t, Dlsym (symbol c)),
                          (t, mutex s t, Stderr (''error: dlsym() '' @ symbol c @ ''\<newline>''))]"
    by (simp add: added_def diagnostic_def EXIT_FAILURE_def)
next
  show "\<forall>x\<in>set (added s (state_of (intercept e t c s))).
         \<forall>f a. snd (snd x) = Call f a \<longrightarrow> f \<noteq> 0"
  proof (cases "intercept e t c s")
    case (Exit k s')
    from intercept_Exit [OF Exit] show ?thesis
      by (auto simp: Exit added_def)
  next
    case (Return v s')
    from intercept_Return [OF Return] obtain Y X where
      tr: "trace s' = trace s @ Y @ (t, mutex s t, Call (slot c s') (args c)) # X" and
      Y: "Y = (if slot c s \<noteq> 0 then []
            else (t, mutex s t, Dlsym (symbol c)) #
                 (if logFile s \<noteq> 0 then [] else [(t, mutex s t + 1, Fopen LOG_FILE_NAME ''w'')]))" and
      X: "\<forall>x\<in>set X. fst x = t \<and> fst (snd x) = mutex s t + 1 \<and> is_write (snd (snd x))" and
      nz: "slot c s' \<noteq> 0"
      by blast
    have "\<And>x f a. x \<in> set X \<Longrightarrow> snd (snd x) \<noteq> Call f a"
      using X by fastforce
    then show ?thesis
      using nz by (auto simp: Return added_trace [OF tr] Y)
  qed
qed


theorem unresolved_symbol_is_fatal_witness:
  "value_of (intercept no_symbol_env 0 (Free 5) init_state) = None
   \<and> trace (state_of (intercept no_symbol_env 0 (Free 5) init_state)) =
       [(0, 0, Dlsym ''free''), (0, 0, Stderr ''error: dlsym() free\<newline>'')]"
proof -
  have h: "slot (Free 5) init_state = 0
      \<and> dlsym no_symbol_env (trace init_state) (symbol (Free 5)) = 0"
    by (simp add: init_state_def no_symbol_env_def demo_env_def)
  from unresolved_symbol_is_fatal [of "Free 5" init_state no_symbol_env 0,
      THEN conjunct1, THEN mp, OF h]
  obtain s' where
    "intercept no_symbol_env 0 (Free 5) init_state = Exit EXIT_FAILURE s'"
    "added init_state s' =
       [(0, mutex init_state 0, Dlsym (symbol (Free 5))),
        (0, mutex init_state 0, Stderr (''error: dlsym() '' @ symbol (Free 5) @ ''\<newline>''))]"
    by blast
  then show ?thesis by (simp add: added_def init_state_def)
qed

section \<open>The guard during symbol resolution\<close>

text \<open>
  C3. Every effect of an interceptor call is made by the calling thread. The lookup
  \<^verbatim>\<open>dlsym\<close> is made with the thread's counter at the value it had on entry: the interceptor
  does not take the guard for it, so the counter is nonzero there only when the call is
  itself nested. The guard is held, the counter being one above its value on entry,
  while the log file is opened and while a record is written. A first call does make
  the lookup.
\<close>

theorem guard_at_each_effect:
  "(\<forall>x\<in>set (added s (state_of (intercept e t c s))).
      fst x = t
      \<and> (is_dlsym (snd (snd x)) \<longrightarrow> fst (snd x) = mutex s t)
      \<and> (log_access (snd (snd x)) \<longrightarrow> fst (snd x) = mutex s t + 1))
   \<and> (slot c s = 0 \<longrightarrow>
        (t, mutex s t, Dlsym (symbol c)) \<in> set (added s (state_of (intercept e t c s))))"
proof (cases "intercept e t c s")
  case (Exit k s')
  from intercept_Exit [OF Exit] show ?thesis
    by (auto simp: Exit added_def)
next
  case (Return v s')
  from intercept_Return [OF Return] obtain Y X where
    tr: "trace s' = trace s @ Y @ (t, mutex s t, Call (slot c s') (args c)) # X" and
    Y: "Y = (if slot c s \<noteq> 0 then []
            else (t, mutex s t, Dlsym (symbol c)) #
                 (if logFile s \<noteq> 0 then [] else [(t, mutex s t + 1, Fopen LOG_FILE_NAME ''w'')]))" and
    X: "\<forall>x\<in>set X. fst x = t \<and> fst (snd x) = mutex s t + 1 \<and> is_write (snd (snd x))"
    by blast
  have "\<And>x. x \<in> set X \<Longrightarrow> \<not> is_dlsym (snd (snd x))"
    using X is_write_other by blast
  then show ?thesis
    using X by (auto simp: Return added_trace [OF tr] Y)
qed


theorem guard_at_each_effect_witness:
  "(0, 0, Dlsym ''malloc'')
     \<in> set (added init_state (state_of (intercept demo_env 0 (Malloc 3) init_state)))"
proof -
  have h: "slot (Malloc 3) init_state = 0" by (simp add: init_state_def)
  from guard_at_each_effect [of init_state demo_env 0 "Malloc 3", THEN conjunct2, THEN mp, OF h]
  show ?thesis by (simp add: init_state_def)
qed

text \<open>
  C3 as stated asks for a nonzero counter whenever \<^verbatim>\<open>dlsym\<close> runs. The first \<^verbatim>\<open>malloc\<close> of a
  process runs it with the counter at zero. And an allocation made while a lookup is
  running is logged: after a first \<^verbatim>\<open>malloc(3)\<close>, take the state in which \<^verbatim>\<open>free\<close> has
  just entered \<^verbatim>\<open>dlsym\<close>; a \<^verbatim>\<open>malloc(8)\<close> called there writes its record.
\<close>

theorem dlsym_without_guard_counterexample:
  "mutex init_state 0 = 0
   \<and> trace (state_of (malloc demo_env 0 3 init_state)) ! 0 = (0, 0, Dlsym ''malloc'')
   \<and> records
       (added (emit 0 (Dlsym ''free'') (state_of (malloc demo_env 0 3 init_state)))
          (state_of (malloc demo_env 0 8
             (emit 0 (Dlsym ''free'') (state_of (malloc demo_env 0 3 init_state))))))
       = [(''malloc'', 8, 65536)]"
  by (simp add: malloc_def run_defs)

section \<open>The size logged by calloc\<close>

text \<open>
  C10. For every outermost call \<^verbatim>\<open>calloc(nmemb, size)\<close> that returns a non-null pointer, the
  one record written carries the exact product of \<open>nmemb\<close> and \<open>size\<close>, for all values of
  the two. The interceptor forms \<^verbatim>\<open>size*nmemb\<close> in \<^verbatim>\<open>size_t\<close> only after the wrapped
  \<^verbatim>\<open>calloc\<close> has accepted the request; that \<^verbatim>\<open>calloc\<close> is taken to return null for a product
  that does not fit in \<^verbatim>\<open>size_t\<close>, as it has to, so the product of a successful call
  never wraps.
\<close>

theorem calloc_logged_size:
  assumes "mutex s t = 0" and "calloc e t nmemb sz s = Return ptr s'" and "ptr \<noteq> 0"
    and "refuses_overflow e (real_calloc s')"
  shows "records (added s s') = [(''calloc'', unat nmemb * unat sz, sint ptr)]"
proof -
  let ?c = "Calloc nmemb sz"
  have R: "intercept e t ?c s = Return (Pointer ptr) s'"
    using assms(2) by simp
  from intercept_Return [OF R] obtain Y X where
    tr: "trace s' = trace s @ Y @ (t, mutex s t, Call (slot ?c s') (args ?c)) # X" and
    Y: "Y = (if slot ?c s \<noteq> 0 then []
            else (t, mutex s t, Dlsym (symbol ?c)) #
                 (if logFile s \<noteq> 0 then [] else [(t, mutex s t + 1, Fopen LOG_FILE_NAME ''w'')]))" and
    v: "Pointer ptr = wrapped e (trace s @ Y) (slot ?c s') ?c" and
    X: "records X =
         (if mutex s t = 0 \<and> success (Pointer ptr)
          then map (\<lambda>(a, n, p). (a, unat n, sint p))
                 (to_log e (trace s @ Y @ [(t, mutex s t, Call (slot ?c s') (args ?c))]) ?c (Pointer ptr))
          else [])"
    by blast
  have "records Y = []" by (simp add: Y)
  then have "records (added s s') = records X"
    by (simp add: added_trace [OF tr])
  also have "\<dots> = [(''calloc'', unat (sz * nmemb), sint ptr)]"
    using X assms(1,3) by simp
  finally have r: "records (added s s') = [(''calloc'', unat (sz * nmemb), sint ptr)]" .
  from v have "ptr = call_ptr e (trace s @ Y) (real_calloc s') [nmemb, sz]" by simp
  with assms(3,4) have "\<not> 2 ^ 64 \<le> unat nmemb * unat sz"
    unfolding refuses_overflow_def by metis
  then have "unat nmemb * unat sz < 2 ^ 64" by simp
  then have u: "unat (sz * nmemb) = unat nmemb * unat sz"
    by (simp add: unat_word_ariths mult.commute)
  show ?thesis by (simp add: r u)
qed

theorem calloc_logged_size_witness:
  "mutex init_state 0 = 0
   \<and> value_of (calloc checked_env 0 3 8 init_state) = Some 65536
   \<and> records (added init_state (state_of (calloc checked_env 0 3 8 init_state)))
       = [(''calloc'', 24, 65536)]
   \<and> value_of (calloc checked_env 0 9223372036854775808 2 init_state) = Some 0
   \<and> records (added init_state (state_of (calloc checked_env 0 9223372036854775808 2 init_state)))
       = []"
proof -
  let ?s' = "state_of (calloc checked_env 0 3 8 init_state)"
  have m: "mutex init_state 0 = 0" by simp
  have r: "calloc checked_env 0 3 8 init_state = Return 65536 ?s'"
    by (simp add: calloc_def run_defs)
  have nz: "(65536 :: addr) \<noteq> 0" by simp
  have c: "refuses_overflow checked_env (real_calloc ?s')"
    by (rule refuses_overflow_checked_env)
  from calloc_logged_size [OF m r nz c]
  have "records (added init_state ?s') = [(''calloc'', 24, 65536)]" by simp
  moreover have "value_of (calloc checked_env 0 3 8 init_state) = Some 65536"
    by (subst r) simp
  moreover have "value_of (calloc checked_env 0 9223372036854775808 2 init_state) = Some 0
   \<and> records (added init_state (state_of (calloc checked_env 0 9223372036854775808 2 init_state)))
       = []"
    by (simp add: calloc_def run_defs)
  ultimately show ?thesis by simp
qed

section \<open>The result of the wrapped call\<close>

text \<open>
  C8. Every interceptor returns unless its lookup or the opening of the log fails, and an
  interceptor that returns has called the resolved implementation exactly once, with the
  caller's arguments, and returns what that call answered: the pointer, or the status
  for \<^verbatim>\<open>posix_memalign\<close>, whether it signals success or failure. Before the call the
  interceptor calls nothing but the lookup and the opening of the log; after it, it only
  writes to the log. For \<^verbatim>\<open>posix_memalign\<close> the caller's \<open>memptr\<close> is among those arguments;
  the interceptor reads \<^verbatim>\<open>*memptr\<close> once, after the call and only for the record of an
  outermost successful call, and stores nothing: when it returns, \<^verbatim>\<open>*memptr\<close> holds
  what the wrapped call left there, writing to the log not changing it. All this is said
  of a call during which nothing else enters the module. Whatever is called back during
  a call, if the call returns then its first-call block has returned, and the value
  returned is what the implementation at the address in the variable answers to the
  caller's arguments at that moment.
\<close>

theorem result_passed_through:
  "(value_of (intercept e t c s) = None \<longleftrightarrow>
      slot c s = 0
      \<and> (dlsym e (trace s) (symbol c) = 0
         \<or> logFile s = 0
           \<and> fopen e (trace s @ [(t, mutex s t, Dlsym (symbol c))]) LOG_FILE_NAME ''w'' = 0))
   \<and> (\<forall>v s'. intercept e t c s = Return v s' \<longrightarrow>
        (\<exists>Y X. added s s' = Y @ (t, mutex s t, Call (slot c s') (args c)) # X
           \<and> v = wrapped e (trace s @ Y) (slot c s') c
           \<and> count_where is_call Y = 0
           \<and> (\<forall>x\<in>set X. is_write (snd (snd x)))
           \<and> (\<forall>memptr al sz. c = Posix_memalign memptr al sz \<longrightarrow>
                records X =
                  (if mutex s t = 0 \<and> v = Status 0
                   then [(''posix_memalign'', unat sz,
                          sint (deref e (trace s @ Y @ [(t, mutex s t, Call (slot c s') (args c))])
                                 memptr))]
                   else [])
                \<and> (untouched_by_writes e memptr \<longrightarrow>
                     deref e (trace s') memptr =
                       deref e (trace s @ Y @ [(t, mutex s t, Call (slot c s') (args c))]) memptr))))
   \<and> (\<forall>v s'. intercept_re e cb t c s = Return v s' \<longrightarrow>
        (\<exists>s2. first_call_re e cb t c s = Return () s2
           \<and> v = wrapped e (trace s2) (slot c s2) c))"
proof (intro conjI allI impI)
  show "value_of (intercept e t c s) = None \<longleftrightarrow>
      slot c s = 0
      \<and> (dlsym e (trace s) (symbol c) = 0
         \<or> logFile s = 0
           \<and> fopen e (trace s @ [(t, mutex s t, Dlsym (symbol c))]) LOG_FILE_NAME ''w'' = 0)"
  proof (cases "first_call e t c s")
    case (Exit k s1)
    then have "value_of (intercept e t c s) = None" by (simp add: intercept_eq)
    moreover from Exit have "slot c s = 0
      \<and> (dlsym e (trace s) (symbol c) = 0
         \<or> logFile s = 0
           \<and> fopen e (trace s @ [(t, mutex s t, Dlsym (symbol c))]) LOG_FILE_NAME ''w'' = 0)"
      by (auto simp: first_call_eq split: if_splits)
    ultimately show ?thesis by simp
  next
    case (Return u s2)
    obtain X where "forward e t c s2 =
         Return (wrapped e (trace s2) (slot c s2) c)
           (s2\<lparr>trace := trace s2 @ (t, mutex s2 t, Call (slot c s2) (args c)) # X\<rparr>)"
      using forward_ex [of e t c s2] by blast
    with Return have "value_of (intercept e t c s) \<noteq> None" by (simp add: intercept_eq)
    moreover from Return have "\<not> (slot c s = 0
      \<and> (dlsym e (trace s) (symbol c) = 0
         \<or> logFile s = 0
           \<and> fopen e (trace s @ [(t, mutex s t, Dlsym (symbol c))]) LOG_FILE_NAME ''w'' = 0))"
      by (auto simp: first_call_eq split: if_splits)
    ultimately show ?thesis by blast
  qed
next
  fix v s'
  assume R: "intercept e t c s = Return v s'"
  from intercept_Return [OF R] obtain Y X where
    tr: "trace s' = trace s @ Y @ (t, mutex s t, Call (slot c s') (args c)) # X" and
    Y: "Y = (if slot c s \<noteq> 0 then []
            else (t, mutex s t, Dlsym (symbol c)) #
                 (if logFile s \<noteq> 0 then [] else [(t, mutex s t + 1, Fopen LOG_FILE_NAME ''w'')]))" and
    v: "v = wrapped e (trace s @ Y) (slot c s') c" and
    rX: "records X =
         (if mutex s t = 0 \<and> success v
          then map (\<lambda>(a, n, p). (a, unat n, sint p))
                 (to_log e (trace s @ Y @ [(t, mutex s t, Call (slot c s') (args c))]) c v)
          else [])" and
    X: "\<forall>x\<in>set X. fst x = t \<and> fst (snd x) = mutex s t + 1 \<and> is_write (snd (snd x))"
    by blast
  let ?h = "trace s @ Y @ [(t, mutex s t, Call (slot c s') (args c))]"
  have a: "added s s' = Y @ (t, mutex s t, Call (slot c s') (args c)) # X"
    by (rule added_trace [OF tr])
  have y: "count_where is_call Y = 0" by (simp add: Y)
  have w: "\<forall>x\<in>set X. is_write (snd (snd x))" using X by blast
  have tr': "trace s' = ?h @ X" using tr by simp
  have p: "\<forall>memptr al sz. c = Posix_memalign memptr al sz \<longrightarrow>
                records X =
                  (if mutex s t = 0 \<and> v = Status 0
                   then [(''posix_memalign'', unat sz, sint (deref e ?h memptr))]
                   else [])
                \<and> (untouched_by_writes e memptr \<longrightarrow>
                     deref e (trace s') memptr = deref e ?h memptr)"
  proof (intro allI impI conjI)
    fix memptr al sz
    assume c: "c = Posix_memalign memptr al sz"
    then obtain r where vr: "v = Status r" using v by simp
    show "records X =
                  (if mutex s t = 0 \<and> v = Status 0
                   then [(''posix_memalign'', unat sz, sint (deref e ?h memptr))]
                   else [])"
    proof (cases "mutex s t = 0 \<and> r = 0")
      case True
      with rX vr have "records X = map (\<lambda>(a, n, p). (a, unat n, sint p)) (to_log e ?h c v)"
        by simp
      with True vr show ?thesis by (simp add: c)
    next
      case False
      with rX vr show ?thesis by auto
    qed
  next
    fix memptr al sz
    assume "untouched_by_writes e memptr"
    from deref_after_writes [OF this w, of ?h]
    show "deref e (trace s') memptr = deref e ?h memptr" by (simp only: tr')
  qed
  show "\<exists>Y X. added s s' = Y @ (t, mutex s t, Call (slot c s') (args c)) # X
           \<and> v = wrapped e (trace s @ Y) (slot c s') c
           \<and> count_where is_call Y = 0
           \<and> (\<forall>x\<in>set X. is_write (snd (snd x)))
           \<and> (\<forall>memptr al sz. c = Posix_memalign memptr al sz \<longrightarrow>
                records X =
                  (if mutex s t = 0 \<and> v = Status 0
                   then [(''posix_memalign'', unat sz,
                          sint (deref e (trace s @ Y @ [(t, mutex s t, Call (slot c s') (args c))])
                                 memptr))]
                   else [])
                \<and> (untouched_by_writes e memptr \<longrightarrow>
                     deref e (trace s') memptr =
                       deref e (trace s @ Y @ [(t, mutex s t, Call (slot c s') (args c))]) memptr))"
    using a v y w p by blast
next
  fix v s'
  assume "intercept_re e cb t c s = Return v s'"
  then show "\<exists>s2. first_call_re e cb t c s = Return () s2
           \<and> v = wrapped e (trace s2) (slot c s2) c"
    by (auto simp: intercept_re_def forward_re_def and_then_def Let_def
        split: outcome.splits if_splits)
qed


theorem result_passed_through_witness:
  "value_of (intercept demo_env 0 (Valloc 64) init_state) = Some (Pointer 65536)
   \<and> value_of (intercept no_symbol_env 0 (Valloc 64) init_state) = None
   \<and> value_of (intercept demo_env 0 (Posix_memalign 24 16 100) init_state) = Some (Status 0)
   \<and> count_where is_call
       (added init_state (state_of (intercept demo_env 0 (Posix_memalign 24 16 100) init_state))) = 1
   \<and> records
       (added init_state (state_of (intercept demo_env 0 (Posix_memalign 24 16 100) init_state)))
       = [(''posix_memalign'', 100, 65536)]
   \<and> deref demo_env
       (trace (state_of (intercept demo_env 0 (Posix_memalign 24 16 100) init_state))) 24 = 65536"
proof -
  let ?c = "Posix_memalign 24 16 100"
  let ?s' = "state_of (intercept demo_env 0 ?c init_state)"
  have v1': "value_of (intercept demo_env 0 (Valloc 64) init_state) = Some (Pointer 65536)"
    by (simp add: valloc_def run_defs)
  have v2: "value_of (intercept no_symbol_env 0 (Valloc 64) init_state) = None"
    using result_passed_through [of no_symbol_env 0 "Valloc 64" init_state, THEN conjunct1]
    by (simp add: init_state_def demo_env_def no_symbol_env_def)
  have r: "intercept demo_env 0 ?c init_state = Return (Status 0) ?s'"
    by (simp add: posix_memalign_def run_defs)
  have u: "untouched_by_writes demo_env 24"
    by (simp add: untouched_by_writes_def demo_env_def)
  from result_passed_through [of demo_env 0 ?c init_state, THEN conjunct2, THEN conjunct1,
      rule_format, OF r]
  obtain Y X where
    a: "added init_state ?s' = Y @ (0, mutex init_state 0, Call (slot ?c ?s') (args ?c)) # X" and
    y: "count_where is_call Y = 0" and
    x: "\<forall>x\<in>set X. is_write (snd (snd x))" and
    p: "\<forall>memptr al sz. ?c = Posix_memalign memptr al sz \<longrightarrow>
          records X =
            (if mutex init_state 0 = 0 \<and> Status 0 = Status 0
             then [(''posix_memalign'', unat sz,
                    sint (deref demo_env (trace init_state @ Y @
                       [(0, mutex init_state 0, Call (slot ?c ?s') (args ?c))]) memptr))]
             else [])
          \<and> (untouched_by_writes demo_env memptr \<longrightarrow>
               deref demo_env (trace ?s') memptr =
                 deref demo_env (trace init_state @ Y @
                       [(0, mutex init_state 0, Call (slot ?c ?s') (args ?c))]) memptr)"
    by blast
  have cx: "count_where is_call X = 0"
    by (rule count_where_none) (use x is_write_other in blast)
  have 1: "count_where is_call (added init_state ?s') = 1"
    by (subst a) (simp add: y cx)
  from p have "deref demo_env (trace ?s') 24 =
      deref demo_env (trace init_state @ Y @
          [(0, mutex init_state 0, Call (slot ?c ?s') (args ?c))]) 24"
    using u by blast
  then have 2: "deref demo_env (trace ?s') 24 = 65536"
    by (simp add: demo_env_def)
  have 3: "records (added init_state ?s') = [(''posix_memalign'', 100, 65536)]"
    by (simp add: posix_memalign_def run_defs)
  have 4: "value_of (intercept demo_env 0 ?c init_state) = Some (Status 0)"
    by (subst r) simp
  show ?thesis using v1' v2 1 2 3 4 by simp
qed

section \<open>One lookup per symbol\<close>




section \<open>Opening the log file\<close>




section \<open>Process exit\<close>




end
